theory Spec2Isabelle
  imports Complex_Main "HOL-Library.Stream"
begin

section \<open>Dense arrays\<close>

text \<open>
  The notebook \<^verbatim>\<open>01_CARE\<close> (file \<^verbatim>\<open>exercise3.ipynb\<close>) works on NumPy arrays. An
  array is modelled as its shape, its element type tag and its elements in row-major
  (C) order. Elements are real numbers: rounding to the element type and the
  non-finite values of floating point are not represented, so every statement about
  arithmetic is a statement over exact arithmetic.
\<close>

datatype dtype = UInt8 | UInt16 | Int64 | Float32 | Float64

record ndarray =
  shape :: "nat list"
  dtype :: dtype
  data :: "real list"

text \<open>
  The exceptions that the modelled operations raise. \<open>UndefinedCast\<close> is not an
  exception: it marks the one place where the result depends on the platform (see
  \<open>num_patches\<close> below).
\<close>

datatype error = IndexError | ValueError | UndefinedCast

text \<open>\<^verbatim>\<open>a.astype(t)\<close>, \<^verbatim>\<open>a[np.newaxis]\<close> and an element-wise operation.\<close>

definition astype :: "dtype \<Rightarrow> ndarray \<Rightarrow> ndarray" where
  "astype t a = a\<lparr>dtype := t\<rparr>"

definition newaxis :: "ndarray \<Rightarrow> ndarray" where
  "newaxis a = a\<lparr>shape := 1 # shape a\<rparr>"

text \<open>
  The element type of \<^verbatim>\<open>array op float\<close>: a single-precision array stays single
  precision next to a Python float, every other array becomes double precision. (Next
  to a NumPy double the result of recent versions is double precision in every case;
  no statement below depends on the difference, since the dataset converts to single
  precision at the end.)
\<close>

definition float_result :: "dtype \<Rightarrow> dtype" where
  "float_result t = (if t = Float32 then Float32 else Float64)"

definition elementwise :: "(real \<Rightarrow> real) \<Rightarrow> ndarray \<Rightarrow> ndarray" where
  "elementwise f a = \<lparr>shape = shape a, dtype = float_result (dtype a), data = map f (data a)\<rparr>"

text \<open>
  \<open>map_data f a\<close> applies \<open>f\<close> to every element and keeps shape and element type;
  \<^verbatim>\<open>a * c\<close> with a Python number \<open>c\<close> is of this kind.
\<close>

definition map_data :: "(real \<Rightarrow> real) \<Rightarrow> ndarray \<Rightarrow> ndarray" where
  "map_data f a = a\<lparr>data := map f (data a)\<rparr>"

definition times_scalar :: "ndarray \<Rightarrow> real \<Rightarrow> ndarray" where
  "times_scalar a c = a\<lparr>data := map (\<lambda>x. x * c) (data a)\<rparr>"

section \<open>Normalizer\<close>

text \<open>
  \<^verbatim>\<open>def normalize(image, mean=0.0, std=1.0): return (image - mean) / std\<close>

  \<^verbatim>\<open>def denormalize(image, mean=0.0, std=1.0): return image * std + mean\<close>

  With \<open>std = 0\<close> NumPy yields non-finite elements (and a warning); the model has no
  such values, so statements about \<open>normalize_image\<close> are made for \<open>std \<noteq> 0\<close>.
\<close>

definition normalize_image :: "ndarray \<Rightarrow> real \<Rightarrow> real \<Rightarrow> ndarray" where
  "normalize_image img mean std = elementwise (\<lambda>x. (x - mean) / std) img"

definition denormalize :: "ndarray \<Rightarrow> real \<Rightarrow> real \<Rightarrow> ndarray" where
  "denormalize img mean std = elementwise (\<lambda>x. x * std + mean) img"

section \<open>Indexing, slicing and stacking\<close>

text \<open>\<open>chunks n m xs\<close>: the first \<open>n\<close> consecutive blocks of \<open>m\<close> elements of \<open>xs\<close>.\<close>

definition chunks :: "nat \<Rightarrow> nat \<Rightarrow> 'a list \<Rightarrow> 'a list list" where
  "chunks n m xs = map (\<lambda>i. take m (drop (i * m) xs)) [0..<n]"

text \<open>
  \<^verbatim>\<open>a[i]\<close> with an integer: the \<open>i\<close>-th sub-array along the first axis. A negative
  index counts from the end; an index out of range, or any index into a
  zero-dimensional array, raises \<^verbatim>\<open>IndexError\<close>.
\<close>

definition item :: "ndarray \<Rightarrow> int \<Rightarrow> error + ndarray" where
  "item a i =
     (case shape a of
        [] \<Rightarrow> Inl IndexError
      | n # ds \<Rightarrow>
          (let j = (if i < 0 then i + int n else i)
           in if 0 \<le> j \<and> j < int n
              then Inr \<lparr>shape = ds, dtype = dtype a,
                        data = take (prod_list ds) (drop (nat j * prod_list ds) (data a))\<rparr>
              else Inl IndexError))"

text \<open>
  \<^verbatim>\<open>slice(start, stop).indices(n)\<close> of Python, step 1: negative bounds count from the
  end, and both bounds are clamped to the axis. A slice never raises.
\<close>

definition slice_indices :: "int \<Rightarrow> int \<Rightarrow> nat \<Rightarrow> nat \<times> nat" where
  "slice_indices start stop n =
     (let clamp = (\<lambda>i. if i < 0 then max 0 (i + int n) else min i (int n))
      in (nat (clamp start), nat (clamp stop)))"

definition slice_len :: "int \<times> int \<Rightarrow> nat \<Rightarrow> nat" where
  "slice_len s n = (case s of (start, stop) \<Rightarrow>
     (case slice_indices start stop n of (lo, hi) \<Rightarrow> hi - lo))"

fun slice_axes :: "(int \<times> int) list \<Rightarrow> nat list \<Rightarrow> real list \<Rightarrow> real list" where
  "slice_axes ((start, stop) # ss) (d # ds) xs =
     (case slice_indices start stop d of (lo, hi) \<Rightarrow>
        concat (map (slice_axes ss ds) (take (hi - lo) (drop lo (chunks d (prod_list ds) xs)))))"
| "slice_axes ss ds xs = xs"

text \<open>
  \<^verbatim>\<open>a[(..., *slices)]\<close>: the slices apply to the last axes, the axes before them are
  taken whole. More slices than axes raise \<^verbatim>\<open>IndexError\<close>.
\<close>

definition getitem_ellipsis :: "ndarray \<Rightarrow> (int \<times> int) list \<Rightarrow> error + ndarray" where
  "getitem_ellipsis a ss =
     (if length (shape a) < length ss then Inl IndexError
      else
        (let k = length (shape a) - length ss;
             lead = take k (shape a);
             sp = drop k (shape a)
         in Inr \<lparr>shape = lead @ map2 slice_len ss sp, dtype = dtype a,
                 data = concat (map (slice_axes ss sp)
                          (chunks (prod_list lead) (prod_list sp) (data a)))\<rparr>))"

text \<open>
  \<^verbatim>\<open>np.stack(arrays)\<close>: an empty list and arrays of different shapes raise
  \<^verbatim>\<open>ValueError\<close>. (The arrays stacked in this program all have one element type.)
\<close>

definition np_stack :: "ndarray list \<Rightarrow> error + ndarray" where
  "np_stack arrays =
     (case arrays of
        [] \<Rightarrow> Inl ValueError
      | a # as \<Rightarrow>
          if list_all (\<lambda>b. shape b = shape a) as
          then Inr \<lparr>shape = length arrays # shape a, dtype = dtype a,
                    data = concat (map data arrays)\<rparr>
          else Inl ValueError)"

section \<open>Random numbers\<close>

text \<open>
  The generator of \<^verbatim>\<open>np.random.default_rng\<close> is library code. It is modelled by the
  stream of raw draws it will deliver. \<^verbatim>\<open>default_rng()\<close> without a seed takes its
  stream from the operating system's entropy, a different one at every call:
  \<open>os_entropy\<close> is that input. \<^verbatim>\<open>default_rng(seed)\<close> delivers the stream that the
  PCG64 algorithm fixes for the seed: \<open>pcg64\<close>, a parameter. A negative seed raises
  \<^verbatim>\<open>ValueError\<close>.

  \<^verbatim>\<open>rng.integers(low, high, endpoint)\<close> maps one raw draw into the range; every value of
  the range is the image of some raw draw. The distribution is not modelled. An empty
  range raises \<^verbatim>\<open>ValueError\<close>.
\<close>

type_synonym bitgen = "nat stream"

record numpy_env =
  pcg64 :: "nat \<Rightarrow> nat stream"
  os_entropy :: "nat stream"

definition default_rng :: "numpy_env \<Rightarrow> int option \<Rightarrow> error + bitgen" where
  "default_rng env seed =
     (case seed of
        None \<Rightarrow> Inr (os_entropy env)
      | Some s \<Rightarrow> if s < 0 then Inl ValueError else Inr (pcg64 env (nat s)))"

definition integers :: "bitgen \<Rightarrow> int \<Rightarrow> int \<Rightarrow> bool \<Rightarrow> error + (int \<times> bitgen)" where
  "integers rng low high endpoint =
     (let hi = (if endpoint then high else high - 1)
      in if hi < low then Inl ValueError
         else Inr (low + int (shd rng) mod (hi - low + 1), stl rng))"

text \<open>
  An environment for the examples: the raw draws of the operating system are the given
  list followed by zeros, and the seeded generator delivers its seed over and over.
\<close>

definition example_env :: "nat list \<Rightarrow> numpy_env" where
  "example_env raw = \<lparr>pcg64 = (\<lambda>seed. sconst seed), os_entropy = raw @- sconst 0\<rparr>"


section \<open>PatchSampler: \<^verbatim>\<open>create_patches\<close>\<close>

text \<open>
  \<^verbatim>\<open>np.prod\<close> of a tuple or list of integers multiplies in 64-bit signed integers
  and wraps around silently: the result is the product reduced into
  \<open>- 2 ^ 63 ..< 2 ^ 63\<close>. (The entries themselves are taken to lie in this range;
  NumPy does not build a 64-bit array from other entries.)
\<close>

definition int64 :: "int \<Rightarrow> int" where
  "int64 x = (x + 2 ^ 63) mod 2 ^ 64 - 2 ^ 63"

definition np_prod :: "int list \<Rightarrow> int" where
  "np_prod xs = int64 (prod_list xs)"

text \<open>
  \<^verbatim>\<open>n_patches = np.ceil(np.prod(sample.shape) / np.prod(patch_size)).astype(int)\<close>

  The quotient of the two wrapped products is taken over the reals (the source divides
  in double precision, which is exact for pixel counts below \<open>2 ^ 53\<close>). When the
  product of the patch sizes is 0 the quotient is infinite or not a number, and what
  its conversion to an integer yields depends on the platform: the model stops there
  with \<open>UndefinedCast\<close>.
\<close>

definition num_patches :: "nat list \<Rightarrow> int list \<Rightarrow> error + int" where
  "num_patches sample_shape patch_size =
     (if np_prod patch_size = 0 then Inl UndefinedCast
      else Inr \<lceil>real_of_int (np_prod (map int sample_shape))
                 / real_of_int (np_prod patch_size)\<rceil>)"

text \<open>
  \<^verbatim>\<open>crop_coords = [rng.integers(0, sample.shape[i] - patch_size[i], endpoint=True)
                 for i in range(len(patch_size))]\<close>

  The \<open>i\<close>-th patch size meets the \<open>i\<close>-th entry of \<^verbatim>\<open>sample.shape\<close>, counted from the
  front; \<^verbatim>\<open>sample.shape[i]\<close> raises \<^verbatim>\<open>IndexError\<close> when the sample has fewer axes.
\<close>

fun draw_crop_coords :: "bitgen \<Rightarrow> nat list \<Rightarrow> int list \<Rightarrow> error + (int list \<times> bitgen)" where
  "draw_crop_coords rng ds [] = Inr ([], rng)"
| "draw_crop_coords rng [] (p # ps) = Inl IndexError"
| "draw_crop_coords rng (d # ds) (p # ps) =
     (case integers rng 0 (int d - p) True of
        Inl e \<Rightarrow> Inl e
      | Inr (c, rng') \<Rightarrow>
          (case draw_crop_coords rng' ds ps of
             Inl e \<Rightarrow> Inl e
           | Inr (cs, rng'') \<Rightarrow> Inr (c # cs, rng'')))"

text \<open>
  \<^verbatim>\<open>sample[(..., *[slice(c, c + patch_size[i]) for i, c in enumerate(crop_coords)])]
      .copy().astype(np.float32)\<close>
\<close>

definition extract_patch :: "ndarray \<Rightarrow> int list \<Rightarrow> int list \<Rightarrow> error + ndarray" where
  "extract_patch sample coords patch_size =
     (case getitem_ellipsis sample (map2 (\<lambda>c p. (c, c + p)) coords patch_size) of
        Inl e \<Rightarrow> Inl e
      | Inr a \<Rightarrow> Inr (astype Float32 a))"

text \<open>
  One drawn patch pair. The source keeps the two patches only; the model also records
  the index of the image and the coordinates drawn, for the statements about them.
\<close>

record drawn =
  sample_index :: nat
  crop_coords :: "int list"
  drawn_patch :: ndarray
  drawn_target :: ndarray

definition sample_patch ::
  "bitgen \<Rightarrow> nat \<Rightarrow> ndarray \<Rightarrow> ndarray \<Rightarrow> int list \<Rightarrow> error + (drawn \<times> bitgen)" where
  "sample_patch rng s sample target_sample patch_size =
     (case draw_crop_coords rng (shape sample) patch_size of
        Inl e \<Rightarrow> Inl e
      | Inr (coords, rng') \<Rightarrow>
          (case extract_patch sample coords patch_size of
             Inl e \<Rightarrow> Inl e
           | Inr p \<Rightarrow>
               (case extract_patch target_sample coords patch_size of
                  Inl e \<Rightarrow> Inl e
                | Inr t \<Rightarrow>
                    Inr (\<lparr>sample_index = s, crop_coords = coords,
                          drawn_patch = p, drawn_target = t\<rparr>, rng'))))"

text \<open>\<^verbatim>\<open>for _ in range(n_patches): ...\<close>\<close>

fun patch_loop ::
  "nat \<Rightarrow> bitgen \<Rightarrow> nat \<Rightarrow> ndarray \<Rightarrow> ndarray \<Rightarrow> int list \<Rightarrow> error + (drawn list \<times> bitgen)" where
  "patch_loop 0 rng s sample target_sample patch_size = Inr ([], rng)"
| "patch_loop (Suc n) rng s sample target_sample patch_size =
     (case sample_patch rng s sample target_sample patch_size of
        Inl e \<Rightarrow> Inl e
      | Inr (x, rng') \<Rightarrow>
          (case patch_loop n rng' s sample target_sample patch_size of
             Inl e \<Rightarrow> Inl e
           | Inr (xs, rng'') \<Rightarrow> Inr (x # xs, rng'')))"

text \<open>\<^verbatim>\<open>for s in range(image_array.shape[0]): ...\<close>, over the list of indices.\<close>

fun image_loop ::
  "bitgen \<Rightarrow> ndarray \<Rightarrow> ndarray \<Rightarrow> int list \<Rightarrow> nat list \<Rightarrow> error + (drawn list \<times> bitgen)" where
  "image_loop rng image_array target_array patch_size [] = Inr ([], rng)"
| "image_loop rng image_array target_array patch_size (s # ss) =
     (case item image_array (int s) of
        Inl e \<Rightarrow> Inl e
      | Inr sample \<Rightarrow>
     (case item target_array (int s) of
        Inl e \<Rightarrow> Inl e
      | Inr target_sample \<Rightarrow>
     (case num_patches (shape sample) patch_size of
        Inl e \<Rightarrow> Inl e
      | Inr n_patches \<Rightarrow>
     (case patch_loop (nat n_patches) rng s sample target_sample patch_size of
        Inl e \<Rightarrow> Inl e
      | Inr (xs, rng') \<Rightarrow>
     (case image_loop rng' image_array target_array patch_size ss of
        Inl e \<Rightarrow> Inl e
      | Inr (ys, rng'') \<Rightarrow> Inr (xs @ ys, rng''))))))"

text \<open>The two loops of \<^verbatim>\<open>create_patches\<close>, from the creation of the generator on.\<close>

definition drawn_patches ::
  "numpy_env \<Rightarrow> ndarray \<Rightarrow> ndarray \<Rightarrow> int list \<Rightarrow> error + drawn list" where
  "drawn_patches env image_array target_array patch_size =
     (case default_rng env None of
        Inl e \<Rightarrow> Inl e
      | Inr rng \<Rightarrow>
          (case shape image_array of
             [] \<Rightarrow> Inl IndexError
           | n # ds \<Rightarrow>
               (case image_loop rng image_array target_array patch_size [0..<n] of
                  Inl e \<Rightarrow> Inl e
                | Inr (xs, rng') \<Rightarrow> Inr xs)))"

definition create_patches ::
  "numpy_env \<Rightarrow> ndarray \<Rightarrow> ndarray \<Rightarrow> int list \<Rightarrow> error + (ndarray \<times> ndarray)" where
  "create_patches env image_array target_array patch_size =
     (case drawn_patches env image_array target_array patch_size of
        Inl e \<Rightarrow> Inl e
      | Inr xs \<Rightarrow>
          (case np_stack (map drawn_patch xs) of
             Inl e \<Rightarrow> Inl e
           | Inr image_patches \<Rightarrow>
               (case np_stack (map drawn_target xs) of
                  Inl e \<Rightarrow> Inl e
                | Inr target_patches \<Rightarrow> Inr (image_patches, target_patches))))"



section \<open>Augmenter\<close>

text \<open>
  \<^verbatim>\<open>np.rot90(image, k, axes=(-2, -1))\<close>: \<open>k mod 4\<close> quarter turns of the last two
  axes, as the library computes them (\<open>0\<close>: the array itself; \<open>2\<close>: both axes
  flipped; \<open>1\<close>: the last axis flipped, then the two axes swapped; \<open>3\<close>: the two axes
  swapped, then the last axis flipped). An array with fewer than two axes raises
  \<^verbatim>\<open>ValueError\<close>. \<^verbatim>\<open>np.flip(a, axis=-1)\<close> reverses the last axis.
\<close>

definition rot90 :: "ndarray \<Rightarrow> int \<Rightarrow> error + ndarray" where
  "rot90 m k =
     (if length (shape m) < 2 then Inl ValueError
      else
        (let lead = butlast (butlast (shape m));
             h = last (butlast (shape m));
             w = last (shape m);
             ms = map (chunks h w) (chunks (prod_list lead) (h * w) (data m))
         in if k mod 4 = 0 then Inr m
            else if k mod 4 = 2
              then Inr (m\<lparr>data := concat (map (\<lambda>rs. concat (map rev (rev rs))) ms)\<rparr>)
            else if k mod 4 = 1
              then Inr (m\<lparr>shape := lead @ [w, h],
                          data := concat (map (\<lambda>rs. concat (transpose (map rev rs))) ms)\<rparr>)
            else Inr (m\<lparr>shape := lead @ [w, h],
                        data := concat (map (\<lambda>rs. concat (map rev (transpose rs))) ms)\<rparr>)))"

definition flip_last :: "ndarray \<Rightarrow> error + ndarray" where
  "flip_last m =
     (case rev (shape m) of
        [] \<Rightarrow> Inl ValueError
      | w # ds \<Rightarrow> Inr (m\<lparr>data := concat (map rev (chunks (prod_list ds) w (data m)))\<rparr>))"

text \<open>
  \<^verbatim>\<open>def _flip_and_rotate(image, rotate_state, flip_state):
      rotated = np.rot90(image, k=rotate_state, axes=(-2, -1))
      flipped = np.flip(rotated, axis=-1) if flip_state == 1 else rotated
      return flipped.copy()\<close>
\<close>

definition flip_and_rotate :: "ndarray \<Rightarrow> int \<Rightarrow> int \<Rightarrow> error + ndarray" where
  "flip_and_rotate img rotate_state flip_state =
     (case rot90 img rotate_state of
        Inl e \<Rightarrow> Inl e
      | Inr rotated \<Rightarrow> if flip_state = 1 then flip_last rotated else Inr rotated)"

text \<open>
  \<^verbatim>\<open>def augment_batch(patch, target, seed=42):
      rng = np.random.default_rng(seed=seed)
      rotate_state = rng.integers(0, 4)
      flip_state = rng.integers(0, 2)
      return (_flip_and_rotate(patch, rotate_state, flip_state),
              _flip_and_rotate(target, rotate_state, flip_state))\<close>

  \<open>augment_state\<close> is the first three lines: the pair \<open>(rotate_state, flip_state)\<close>.
  The argument \<open>seed_arg\<close> is \<open>None\<close> for a call that omits \<^verbatim>\<open>seed\<close>, which then
  has its default 42.
\<close>

definition augment_state :: "numpy_env \<Rightarrow> int \<Rightarrow> error + (int \<times> int)" where
  "augment_state env seed =
     (case default_rng env (Some seed) of
        Inl e \<Rightarrow> Inl e
      | Inr rng \<Rightarrow>
          (case integers rng 0 4 False of
             Inl e \<Rightarrow> Inl e
           | Inr (rotate_state, rng') \<Rightarrow>
               (case integers rng' 0 2 False of
                  Inl e \<Rightarrow> Inl e
                | Inr (flip_state, rng'') \<Rightarrow> Inr (rotate_state, flip_state))))"

definition seed_of :: "int option \<Rightarrow> int" where
  "seed_of seed_arg = (case seed_arg of None \<Rightarrow> 42 | Some s \<Rightarrow> s)"

definition augment_batch ::
  "numpy_env \<Rightarrow> ndarray \<Rightarrow> ndarray \<Rightarrow> int option \<Rightarrow> error + (ndarray \<times> ndarray)" where
  "augment_batch env patch target seed_arg =
     (case augment_state env (seed_of seed_arg) of
        Inl e \<Rightarrow> Inl e
      | Inr (rotate_state, flip_state) \<Rightarrow>
          (case flip_and_rotate patch rotate_state flip_state of
             Inl e \<Rightarrow> Inl e
           | Inr p \<Rightarrow>
               (case flip_and_rotate target rotate_state flip_state of
                  Inl e \<Rightarrow> Inl e
                | Inr t \<Rightarrow> Inr (p, t))))"

section \<open>PairedPatchDataset: \<^verbatim>\<open>CAREDataset\<close>\<close>



record statistics =
  train_mean :: real
  train_std :: real
  target_mean :: real
  target_std :: real


record CAREDataset =
  image_data :: ndarray
  target_data :: ndarray
  patch_augment :: bool


text \<open>
  \<^verbatim>\<open>def __getitem__(self, index):
      patch = self.image_data[index]
      target = self.target_data[index]
      if self.patch_augment:
          patch, target = augment_batch(patch=patch, target=target)
      patch = normalize(patch, train_mean, train_std)
      target = normalize(target, target_mean, target_std)
      return patch[np.newaxis].astype(np.float32), target[np.newaxis].astype(np.float32)\<close>
\<close>

definition CAREDataset_getitem ::
  "numpy_env \<Rightarrow> statistics \<Rightarrow> CAREDataset \<Rightarrow> int \<Rightarrow> error + (ndarray \<times> ndarray)" where
  "CAREDataset_getitem env st self index =
     (case item (image_data self) index of
        Inl e \<Rightarrow> Inl e
      | Inr patch \<Rightarrow>
     (case item (target_data self) index of
        Inl e \<Rightarrow> Inl e
      | Inr target \<Rightarrow>
     (case (if patch_augment self then augment_batch env patch target None
            else Inr (patch, target)) of
        Inl e \<Rightarrow> Inl e
      | Inr (patch', target') \<Rightarrow>
          Inr (astype Float32 (newaxis (normalize_image patch' (train_mean st) (train_std st))),
               astype Float32 (newaxis (normalize_image target' (target_mean st) (target_std st)))))))"

section \<open>Properties of the normalizer\<close>

text \<open>
  Claim C6 (round trip). For every array \<open>x\<close>, every mean \<open>m\<close> and every standard
  deviation \<open>s \<noteq> 0\<close>, \<open>denormalize (normalize_image x m s) m s\<close> has the shape and the
  elements of \<open>x\<close> (the comparison \<^verbatim>\<open>==\<close> of NumPy, which looks at the values), over
  exact arithmetic.
\<close>

theorem denormalize_normalize:
  assumes "s \<noteq> 0"
  shows "shape (denormalize (normalize_image x m s) m s) = shape x
       \<and> data (denormalize (normalize_image x m s) m s) = data x"
  using assms by (simp add: denormalize_def normalize_image_def elementwise_def o_def map_idI)

theorem denormalize_normalize_witness:
  "(2::real) \<noteq> 0
   \<and> shape (denormalize (normalize_image \<lparr>shape = [2, 2], dtype = UInt16, data = [1, 5, 9, 14]\<rparr> 3 2) 3 2) = [2, 2]
   \<and> data (denormalize (normalize_image \<lparr>shape = [2, 2], dtype = UInt16, data = [1, 5, 9, 14]\<rparr> 3 2) 3 2) = [1, 5, 9, 14]"
  using denormalize_normalize [of 2 "\<lparr>shape = [2, 2], dtype = UInt16, data = [1, 5, 9, 14]\<rparr>" 3]
  by simp

section \<open>Properties of the augmenter\<close>

text \<open>Rotations and flips commute with every element-wise map.\<close>

lemma chunks_map: "chunks n m (map f xs) = map (map f) (chunks n m xs)"
  by (simp add: chunks_def take_map drop_map)

lemma map_rev_map: "map rev (map (map f) xss) = map (map f) (map rev xss)"
  by (simp add: rev_map)

lemma turn2_map:
  "concat (map rev (rev (chunks h w (map f xs)))) = map f (concat (map rev (rev (chunks h w xs))))"
  by (simp only: chunks_map rev_map [symmetric] map_rev_map map_concat)

lemma turn1_map:
  "concat (transpose (map rev (chunks h w (map f xs))))
     = map f (concat (transpose (map rev (chunks h w xs))))"
  by (simp only: chunks_map map_rev_map transpose_map_map map_concat)

lemma turn3_map:
  "concat (map rev (transpose (chunks h w (map f xs))))
     = map f (concat (map rev (transpose (chunks h w xs))))"
  by (simp only: chunks_map map_rev_map transpose_map_map map_concat)

lemma flip_map:
  "concat (map rev (chunks h w (map f xs))) = map f (concat (map rev (chunks h w xs)))"
  by (simp only: chunks_map map_rev_map map_concat)

lemma blocks_map:
  assumes "\<And>x. g (map f x) = map f (g x)"
  shows "concat (map g (chunks n m (map f xs))) = map f (concat (map g (chunks n m xs)))"
  by (simp add: chunks_map map_concat o_def assms)

lemma rot90_map_data:
  "rot90 (map_data f a) k = map_sum id (map_data f) (rot90 a k)"
  by (simp add: rot90_def map_data_def Let_def blocks_map turn1_map turn2_map turn3_map)

lemma flip_last_map_data:
  "flip_last (map_data f a) = map_sum id (map_data f) (flip_last a)"
  by (simp add: flip_last_def map_data_def flip_map split: list.splits)

lemma flip_and_rotate_map_data:
  "flip_and_rotate (map_data f a) r s = map_sum id (map_data f) (flip_and_rotate a r s)"
  by (cases "rot90 a r") (simp_all add: flip_and_rotate_def rot90_map_data flip_last_map_data)

text \<open>With at least two axes and a seed that is not negative, the augmentation returns.\<close>

lemma rot90_ok: "2 \<le> length (shape a) \<Longrightarrow> \<exists>b. rot90 a k = Inr b \<and> length (shape b) = length (shape a)"
  by (auto simp add: rot90_def Let_def)

lemma flip_last_ok: "shape a \<noteq> [] \<Longrightarrow> \<exists>b. flip_last a = Inr b \<and> shape b = shape a"
  by (cases "rev (shape a)") (auto simp add: flip_last_def)

lemma flip_and_rotate_ok:
  assumes "2 \<le> length (shape a)"
  shows "\<exists>b. flip_and_rotate a r s = Inr b"
proof -
  from rot90_ok [OF assms] obtain b where b: "rot90 a r = Inr b" "length (shape b) = length (shape a)"
    by blast
  with assms have "shape b \<noteq> []" by auto
  from flip_last_ok [OF this] b show ?thesis
    by (auto simp add: flip_and_rotate_def)
qed

lemma integers_range:
  assumes "low \<le> hi"
  shows "\<exists>v. integers rng low hi True = Inr (v, stl rng) \<and> low \<le> v \<and> v \<le> hi"
proof -
  from assms have pos: "0 < hi - low + 1" by simp
  have "0 \<le> int (shd rng) mod (hi - low + 1)"
    using pos by (rule pos_mod_sign)
  moreover have "int (shd rng) mod (hi - low + 1) < hi - low + 1"
    using pos by (rule pos_mod_bound)
  ultimately show ?thesis
    using assms by (simp add: integers_def)
qed

lemma integers_exclusive: "integers rng low high False = integers rng low (high - 1) True"
  by (simp add: integers_def)

lemma augment_state_ok:
  assumes "0 \<le> seed"
  shows "\<exists>r f. augment_state env seed = Inr (r, f) \<and> 0 \<le> r \<and> r < 4 \<and> 0 \<le> f \<and> f < 2"
proof -
  obtain r where r: "integers (pcg64 env (nat seed)) 0 4 False = Inr (r, stl (pcg64 env (nat seed)))"
      "0 \<le> r" "r \<le> 3"
    using integers_range [of 0 3 "pcg64 env (nat seed)"] by (auto simp add: integers_exclusive)
  obtain f where f: "integers (stl (pcg64 env (nat seed))) 0 2 False = Inr (f, stl (stl (pcg64 env (nat seed))))"
      "0 \<le> f" "f \<le> 1"
    using integers_range [of 0 1 "stl (pcg64 env (nat seed))"] by (auto simp add: integers_exclusive)
  from r f assms show ?thesis
    by (simp add: augment_state_def default_rng_def)
qed

lemma times_scalar_map_data: "times_scalar a c = map_data (\<lambda>x. x * c) a"
  by (simp add: times_scalar_def map_data_def)

lemma augment_batch_ok:
  assumes "2 \<le> length (shape patch)" and "2 \<le> length (shape target)"
    and "0 \<le> seed_of seed_arg"
  shows "\<exists>r f p t. augment_state env (seed_of seed_arg) = Inr (r, f)
            \<and> flip_and_rotate patch r f = Inr p \<and> flip_and_rotate target r f = Inr t
            \<and> augment_batch env patch target seed_arg = Inr (p, t)"
proof -
  from augment_state_ok [OF assms(3)] obtain r f
    where st: "augment_state env (seed_of seed_arg) = Inr (r, f)" by blast
  from flip_and_rotate_ok [OF assms(1)] obtain p where p: "flip_and_rotate patch r f = Inr p"
    by blast
  from flip_and_rotate_ok [OF assms(2)] obtain t where t: "flip_and_rotate target r f = Inr t"
    by blast
  have "augment_batch env patch target seed_arg = Inr (p, t)"
    using st p t by (simp add: augment_batch_def)
  then show ?thesis using st p t by blast
qed

lemma augment_batch_times_scalar:
  assumes "augment_batch env patch target seed_arg = Inr (p, t)"
  shows "augment_batch env patch (times_scalar patch c) seed_arg = Inr (p, times_scalar p c)"
proof -
  from assms obtain r f where st: "augment_state env (seed_of seed_arg) = Inr (r, f)"
    by (cases "augment_state env (seed_of seed_arg)") (auto simp add: augment_batch_def)
  from assms st have p: "flip_and_rotate patch r f = Inr p"
    by (cases "flip_and_rotate patch r f"; cases "flip_and_rotate target r f")
      (simp_all add: augment_batch_def)
  show ?thesis
    using st p by (simp add: augment_batch_def times_scalar_map_data flip_and_rotate_map_data)
qed

text \<open>
  Claim C7 (augmentation pairing). For every seed, patch and target: whenever
  \<open>augment_batch\<close> returns a pair, it has drawn one pair \<open>(rotate_state, flip_state)\<close>
  and the two arrays returned are \<open>flip_and_rotate\<close> of the patch and of the target
  with this one pair; and with the patch times 2 as target, the returned target is
  the returned patch times 2. It returns a pair whenever the seed is not negative and
  both arrays have at least two axes (otherwise the library raises).
\<close>

theorem augment_batch_shared_state:
  "(2 \<le> length (shape patch) \<and> 2 \<le> length (shape target) \<and> 0 \<le> seed_of seed_arg
      \<longrightarrow> (\<exists>p t. augment_batch env patch target seed_arg = Inr (p, t)))
   \<and> (\<forall>p t. augment_batch env patch target seed_arg = Inr (p, t) \<longrightarrow>
         (\<exists>r f. augment_state env (seed_of seed_arg) = Inr (r, f)
            \<and> flip_and_rotate patch r f = Inr p \<and> flip_and_rotate target r f = Inr t)
       \<and> augment_batch env patch (times_scalar patch 2) seed_arg
           = Inr (p, times_scalar p 2))"
proof (intro conjI impI allI)
  assume "2 \<le> length (shape patch) \<and> 2 \<le> length (shape target) \<and> 0 \<le> seed_of seed_arg"
  then show "\<exists>p t. augment_batch env patch target seed_arg = Inr (p, t)"
    using augment_batch_ok [of patch target seed_arg env] by blast
next
  fix p t assume r: "augment_batch env patch target seed_arg = Inr (p, t)"
  then show "\<exists>r f. augment_state env (seed_of seed_arg) = Inr (r, f)
            \<and> flip_and_rotate patch r f = Inr p \<and> flip_and_rotate target r f = Inr t"
    by (auto simp add: augment_batch_def split: sum.splits)
  from r show "augment_batch env patch (times_scalar patch 2) seed_arg
           = Inr (p, times_scalar p 2)"
    by (rule augment_batch_times_scalar)
qed

theorem augment_batch_shared_state_witness:
  "2 \<le> length (shape \<lparr>shape = [2, 2], dtype = Float32, data = [1, 2, 3, 4]\<rparr>)
   \<and> 2 \<le> length (shape \<lparr>shape = [2, 2], dtype = Float32, data = [5, 6, 7, 8]\<rparr>)
   \<and> 0 \<le> seed_of (Some 7)
   \<and> augment_batch (example_env []) \<lparr>shape = [2, 2], dtype = Float32, data = [1, 2, 3, 4]\<rparr>
        \<lparr>shape = [2, 2], dtype = Float32, data = [5, 6, 7, 8]\<rparr> (Some 7)
      = Inr (\<lparr>shape = [2, 2], dtype = Float32, data = [1, 3, 2, 4]\<rparr>,
             \<lparr>shape = [2, 2], dtype = Float32, data = [5, 7, 6, 8]\<rparr>)
   \<and> augment_state (example_env []) (seed_of (Some 7)) = Inr (3, 1)
   \<and> flip_and_rotate \<lparr>shape = [2, 2], dtype = Float32, data = [1, 2, 3, 4]\<rparr> 3 1
      = Inr \<lparr>shape = [2, 2], dtype = Float32, data = [1, 3, 2, 4]\<rparr>
   \<and> flip_and_rotate \<lparr>shape = [2, 2], dtype = Float32, data = [5, 6, 7, 8]\<rparr> 3 1
      = Inr \<lparr>shape = [2, 2], dtype = Float32, data = [5, 7, 6, 8]\<rparr>
   \<and> augment_batch (example_env []) \<lparr>shape = [2, 2], dtype = Float32, data = [1, 2, 3, 4]\<rparr>
        (times_scalar \<lparr>shape = [2, 2], dtype = Float32, data = [1, 2, 3, 4]\<rparr> 2) (Some 7)
      = Inr (\<lparr>shape = [2, 2], dtype = Float32, data = [1, 3, 2, 4]\<rparr>,
             times_scalar \<lparr>shape = [2, 2], dtype = Float32, data = [1, 3, 2, 4]\<rparr> 2)"
  using augment_batch_shared_state [of "\<lparr>shape = [2, 2], dtype = Float32, data = [1, 2, 3, 4]\<rparr>"
      "\<lparr>shape = [2, 2], dtype = Float32, data = [5, 6, 7, 8]\<rparr>" "Some 7" "example_env []"]
  by (simp add: augment_batch_def augment_state_def default_rng_def example_env_def
      integers_def seed_of_def flip_and_rotate_def rot90_def flip_last_def chunks_def upt_rec
      times_scalar_def)

text \<open>
  Claim C10 (determinism in the seed). Two calls of \<open>augment_batch\<close> with the same
  patch, target and seed return the same pair, whatever the entropy of the operating
  system is at the two calls. A call that omits the seed is the call with seed 42, and
  the pair \<open>(rotate_state, flip_state)\<close> it draws is the same at every call.
\<close>

theorem augment_batch_deterministic:
  "augment_batch (env\<lparr>os_entropy := e1\<rparr>) patch target seed_arg
     = augment_batch (env\<lparr>os_entropy := e2\<rparr>) patch target seed_arg
   \<and> augment_batch env patch target None = augment_batch env patch target (Some 42)
   \<and> augment_state (env\<lparr>os_entropy := e1\<rparr>) (seed_of None)
       = augment_state (env\<lparr>os_entropy := e2\<rparr>) (seed_of None)"
  by (simp add: augment_batch_def augment_state_def default_rng_def seed_of_def)

section \<open>Properties of the dataset\<close>

lemma augment_batch_entropy:
  "augment_batch (env\<lparr>os_entropy := e\<rparr>) patch target seed_arg
     = augment_batch env patch target seed_arg"
  by (simp add: augment_batch_def augment_state_def default_rng_def)

text \<open>
  Claim C1 (fresh augmentation at every call) does not hold of the code:
  \<open>CAREDataset_getitem\<close> calls \<open>augment_batch\<close> without a seed, so the generator is
  seeded with 42 at every call. Two calls with the same index return the same pair,
  whatever the entropy of the operating system is at the two calls.
\<close>

theorem getitem_same_augmentation_every_call:
  "CAREDataset_getitem (env\<lparr>os_entropy := e1\<rparr>) st self index
     = CAREDataset_getitem (env\<lparr>os_entropy := e2\<rparr>) st self index"
  by (simp add: CAREDataset_getitem_def augment_batch_entropy cong: sum.case_cong if_cong)





lemma item_ok:
  assumes "shape a = n # ds" and "- int n \<le> i" and "i < int n"
  shows "\<exists>b. item a i = Inr b \<and> shape b = ds"
  using assms by (simp add: item_def Let_def)









section \<open>Properties of the patch sampler\<close>

subsection \<open>Drawing coordinates, cutting patches, the two loops\<close>

lemma draw_crop_coords_Inr:
  "draw_crop_coords rng ds ps = Inr (cs, rng') \<Longrightarrow>
     length cs = length ps \<and> length ps \<le> length ds
   \<and> (\<forall>i<length ps. 0 \<le> cs ! i \<and> cs ! i \<le> int (ds ! i) - ps ! i)"
proof (induction rng ds ps arbitrary: cs rng' rule: draw_crop_coords.induct)
  case (1 rng ds)
  then show ?case by simp
next
  case (2 rng p ps)
  then show ?case by simp
next
  case (3 rng d ds p ps)
  from "3.prems" obtain c r1 where c: "integers rng 0 (int d - p) True = Inr (c, r1)"
    by (cases "integers rng 0 (int d - p) True") auto
  with "3.prems" obtain cs' where cs': "draw_crop_coords r1 ds ps = Inr (cs', rng')" "cs = c # cs'"
    by (cases "draw_crop_coords r1 ds ps") auto
  from c have cb: "0 \<le> c \<and> c \<le> int d - p"
    using integers_range [of 0 "int d - p" rng] by (auto simp add: integers_def Let_def split: if_splits)
  from "3.IH" [OF c refl cs'(1)] cb cs'(2) show ?case
    by (auto simp add: nth_Cons split: nat.splits)
qed

lemma draw_crop_coords_ok:
  assumes "list_all2 (\<lambda>p d. p \<le> int d) ps ds"
  shows "\<exists>cs rng'. draw_crop_coords rng ds ps = Inr (cs, rng')"
  using assms
proof (induction ps ds arbitrary: rng rule: list_all2_induct)
  case Nil
  then show ?case by simp
next
  case (Cons p ps d ds)
  from Cons.hyps(1) obtain c where c: "integers rng 0 (int d - p) True = Inr (c, stl rng)"
    using integers_range [of 0 "int d - p" rng] by auto
  from Cons.IH [of "stl rng"] c show ?case by auto
qed

lemma draw_crop_coords_too_large:
  assumes "length ps = length ds" and "i < length ps" and "int (ds ! i) < ps ! i"
  shows "draw_crop_coords rng ds ps = Inl ValueError"
  using assms
proof (induction rng ds ps arbitrary: i rule: draw_crop_coords.induct)
  case (1 rng ds)
  then show ?case by simp
next
  case (2 rng p ps)
  then show ?case by simp
next
  case (3 rng d ds p ps)
  show ?case
  proof (cases "integers rng 0 (int d - p) True")
    case (Inl e)
    then have "e = ValueError" by (auto simp add: integers_def Let_def split: if_splits)
    with Inl show ?thesis by simp
  next
    case (Inr a)
    obtain c r1 where a: "a = (c, r1)" by (cases a)
    from Inr have "p \<le> int d" by (auto simp add: integers_def Let_def split: if_splits)
    with "3.prems" obtain j where j: "i = Suc j" by (cases i) auto
    with "3.prems" have "draw_crop_coords r1 ds ps = Inl ValueError"
      using "3.IH" [OF Inr [unfolded a] refl, of j] by simp
    with Inr a show ?thesis by simp
  qed
qed

lemma slice_len_in_bounds:
  assumes "0 \<le> c" and "0 \<le> p" and "c + p \<le> int d"
  shows "slice_len (c, c + p) d = nat p"
  using assms by (simp add: slice_len_def slice_indices_def Let_def min_def nat_diff_distrib)

lemma sample_patch_Inr:
  assumes "sample_patch rng s a b ps = Inr (x, rng')"
  shows "sample_index x = s \<and> draw_crop_coords rng (shape a) ps = Inr (crop_coords x, rng')
       \<and> extract_patch a (crop_coords x) ps = Inr (drawn_patch x)
       \<and> extract_patch b (crop_coords x) ps = Inr (drawn_target x)"
  using assms by (auto simp add: sample_patch_def split: sum.splits)

lemma patch_loop_drawn:
  assumes "patch_loop n rng s a b ps = Inr (xs, rng')" and "x \<in> set xs"
  shows "\<exists>r r'. sample_patch r s a b ps = Inr (x, r')"
  using assms
proof (induction n arbitrary: rng xs)
  case 0
  then show ?case by simp
next
  case (Suc n)
  then show ?case by (fastforce split: sum.splits)
qed

lemma patch_loop_ok:
  assumes "\<And>r. \<exists>x r'. sample_patch r s a b ps = Inr (x, r')"
  shows "\<exists>xs rng'. patch_loop n rng s a b ps = Inr (xs, rng')"
proof (induction n arbitrary: rng)
  case 0
  then show ?case by simp
next
  case (Suc n)
  from assms [of rng] obtain x r1 where x: "sample_patch rng s a b ps = Inr (x, r1)" by blast
  from Suc [of r1] x show ?case by auto
qed


lemma image_loop_drawn:
  assumes "image_loop rng img tgt ps ss = Inr (xs, rng')" and "x \<in> set xs"
  shows "\<exists>sample tsample r r'. item img (int (sample_index x)) = Inr sample
          \<and> item tgt (int (sample_index x)) = Inr tsample
          \<and> sample_index x \<in> set ss
          \<and> sample_patch r (sample_index x) sample tsample ps = Inr (x, r')"
  using assms
proof (induction ss arbitrary: rng xs)
  case Nil
  then show ?case by simp
next
  case (Cons s ss)
  from Cons.prems(1) obtain sample tsample n ys r1 zs where
    *: "item img (int s) = Inr sample" "item tgt (int s) = Inr tsample"
       "patch_loop n rng s sample tsample ps = Inr (ys, r1)"
       "image_loop r1 img tgt ps ss = Inr (zs, rng')" "xs = ys @ zs"
    by (auto split: sum.splits)
  from Cons.prems(2) *(5) consider "x \<in> set ys" | "x \<in> set zs" by auto
  then show ?case
  proof cases
    case 1
    from patch_loop_drawn [OF *(3) 1] obtain r r' where
      r: "sample_patch r s sample tsample ps = Inr (x, r')" by blast
    with sample_patch_Inr [OF r] * show ?thesis by auto
  next
    case 2
    from Cons.IH [OF *(4) 2] show ?thesis by auto
  qed
qed

lemma map2_slice_len_in_bounds:
  assumes "length cs = length ps" and "length ps = length ds"
    and "\<forall>i<length ps. 0 \<le> cs ! i \<and> 0 \<le> ps ! i \<and> cs ! i + ps ! i \<le> int (ds ! i)"
  shows "map2 slice_len (map2 (\<lambda>c p. (c, c + p)) cs ps) ds = map nat ps"
  using assms by (auto intro!: nth_equalityI simp add: slice_len_in_bounds)

lemma extract_patch_spatial:
  assumes "length cs = length ps" and "length ps = length (shape a)"
    and "\<forall>i<length ps. 0 \<le> cs ! i \<and> 0 \<le> ps ! i \<and> cs ! i + ps ! i \<le> int (shape a ! i)"
  shows "\<exists>p. extract_patch a cs ps = Inr p \<and> shape p = map nat ps"
  using assms map2_slice_len_in_bounds [OF assms]
  by (simp add: extract_patch_def getitem_ellipsis_def astype_def Let_def)


lemma extract_patch_lead:
  assumes "extract_patch a cs ps = Inr p" and "length cs = length ps"
  shows "take (length (shape a) - length ps) (shape p)
       = take (length (shape a) - length ps) (shape a)"
  using assms
  by (auto simp add: extract_patch_def getitem_ellipsis_def astype_def Let_def
      split: if_splits)

lemma sample_patch_spatial:
  assumes fit: "list_all2 (\<lambda>p d. 0 < p \<and> p \<le> int d) ps (shape a)"
    and larger: "list_all2 (\<lambda>d d'. d \<le> d') (shape a) (shape b)"
  shows "\<exists>x rng'. sample_patch rng s a b ps = Inr (x, rng') \<and> sample_index x = s
           \<and> shape (drawn_patch x) = map nat ps \<and> shape (drawn_target x) = map nat ps"
proof -
  from fit have len: "length ps = length (shape a)" by (rule list_all2_lengthD)
  from fit have pos: "\<forall>i<length ps. 0 < ps ! i" by (simp add: list_all2_conv_all_nth)
  from fit have "list_all2 (\<lambda>p d. p \<le> int d) ps (shape a)"
    by (rule list_all2_mono) simp
  from draw_crop_coords_ok [OF this, of rng] obtain cs rng'
    where cs: "draw_crop_coords rng (shape a) ps = Inr (cs, rng')" by blast
  from draw_crop_coords_Inr [OF cs] have lcs: "length cs = length ps"
    and b: "\<forall>i<length ps. 0 \<le> cs ! i \<and> cs ! i \<le> int (shape a ! i) - ps ! i" by simp_all
  from b pos
  have b': "\<forall>i<length ps. 0 \<le> cs ! i \<and> 0 \<le> ps ! i \<and> cs ! i + ps ! i \<le> int (shape a ! i)"
    by (auto simp add: order_less_imp_le dest: spec)
  from extract_patch_spatial [OF lcs len b'] obtain p
    where p: "extract_patch a cs ps = Inr p" "shape p = map nat ps" by blast
  from larger have lenb: "length (shape a) = length (shape b)"
    and le: "\<forall>i<length (shape a). shape a ! i \<le> shape b ! i"
    by (simp_all add: list_all2_conv_all_nth)
  from b' le len
  have b'': "\<forall>i<length ps. 0 \<le> cs ! i \<and> 0 \<le> ps ! i \<and> cs ! i + ps ! i \<le> int (shape b ! i)"
    by (fastforce dest: spec)
  from len lenb have "length ps = length (shape b)" by simp
  from extract_patch_spatial [OF lcs this b''] obtain t
    where t: "extract_patch b cs ps = Inr t" "shape t = map nat ps" by blast
  from cs p t show ?thesis by (simp add: sample_patch_def)
qed

lemma prod_list_pos_int: "\<forall>p\<in>set ps. 0 < p \<Longrightarrow> 0 < (prod_list ps :: int)"
  by (induction ps) simp_all

lemma prod_list_pos_nat: "\<forall>d\<in>set ds. 0 < d \<Longrightarrow> 0 < (prod_list ds :: nat)"
  by (induction ds) simp_all

lemma fit_pos:
  assumes "list_all2 (\<lambda>p d. 0 < p \<and> p \<le> int d) ps ds"
  shows "(\<forall>p\<in>set ps. 0 < p) \<and> (\<forall>d\<in>set ds. 0 < d)"
  using assms by (induction ps ds rule: list_all2_induct) auto

lemma int64_id:
  assumes "- (2 ^ 63) \<le> x" and "x < 2 ^ 63"
  shows "int64 x = x"
proof -
  from assms have "0 \<le> x + 2 ^ 63" and "x + 2 ^ 63 < 2 ^ 64" by simp_all
  then have "(x + 2 ^ 63) mod 2 ^ 64 = x + 2 ^ 63" by (rule mod_pos_pos_trivial)
  then show ?thesis by (simp add: int64_def)
qed

lemma np_prod_id:
  assumes "0 \<le> prod_list xs" and "prod_list xs < 2 ^ 63"
  shows "np_prod xs = prod_list xs"
  using assms by (simp add: np_prod_def int64_id)

lemma prod_list_map_int: "prod_list (map int ds) = int (prod_list ds)"
  by (induction ds) simp_all

lemma fit_prod_le:
  assumes "list_all2 (\<lambda>p d. 0 < p \<and> p \<le> int d) ps ds"
  shows "0 < prod_list ps \<and> prod_list ps \<le> int (prod_list ds)"
  using assms
proof (induction ps ds rule: list_all2_induct)
  case Nil
  then show ?case by simp
next
  case (Cons p ps d ds)
  then have "p * prod_list ps \<le> int d * int (prod_list ds)"
    by (intro mult_mono) simp_all
  with Cons show ?case by simp
qed

lemma num_patches_pos:
  assumes "\<forall>p\<in>set ps. 0 < p" and "\<forall>d\<in>set ds. 0 < d"
    and "prod_list ps < 2 ^ 63" and "int (prod_list ds) < 2 ^ 63"
  shows "num_patches ds ps = Inr \<lceil>real (prod_list ds) / of_int (prod_list ps)\<rceil>
       \<and> 0 < nat \<lceil>real (prod_list ds) / of_int (prod_list ps)\<rceil>"
proof -
  have p: "0 < prod_list ps" using assms(1) by (rule prod_list_pos_int)
  have d: "0 < prod_list ds" using assms(2) by (rule prod_list_pos_nat)
  from p assms(3) have np: "np_prod ps = prod_list ps" by (simp add: np_prod_id)
  from assms(4) have nd: "np_prod (map int ds) = int (prod_list ds)"
    by (simp add: np_prod_id prod_list_map_int)
  from p d have "0 < real (prod_list ds) / of_int (prod_list ps)" by simp
  then have "0 < \<lceil>real (prod_list ds) / of_int (prod_list ps)\<rceil>" by simp
  with p np nd show ?thesis by (simp add: num_patches_def)
qed

lemma np_stack_ok:
  assumes "xs \<noteq> []" and "\<forall>b\<in>set xs. shape b = sh"
  shows "\<exists>a. np_stack xs = Inr a \<and> shape a = length xs # sh"
  using assms by (cases xs) (auto simp add: np_stack_def list_all_iff)

lemma length_concat_replicate: "length (concat (map (replicate k) ss)) = length ss * k"
  by (induction ss) simp_all

lemma patch_loop_sample_index:
  assumes "patch_loop n rng s a b ps = Inr (xs, rng')"
  shows "map sample_index xs = replicate n s"
  using assms
proof (induction n arbitrary: rng xs)
  case 0
  then show ?case by simp
next
  case (Suc n)
  from Suc.prems obtain x r1 ys where
    *: "sample_patch rng s a b ps = Inr (x, r1)" "patch_loop n r1 s a b ps = Inr (ys, rng')"
       "xs = x # ys"
    by (auto split: sum.splits)
  from sample_patch_Inr [OF *(1)] Suc.IH [OF *(2)] *(3) show ?case by simp
qed

lemma image_loop_spatial:
  assumes img: "shape img = n # ds" and tgt: "shape tgt = n # ds'"
    and fit: "list_all2 (\<lambda>p d. 0 < p \<and> p \<le> int d) ps ds"
    and larger: "list_all2 (\<lambda>d d'. d \<le> d') ds ds'"
    and small: "int (prod_list ds) < 2 ^ 63"
    and ss: "\<forall>s\<in>set ss. s < n"
  shows "\<exists>xs rng'. image_loop rng img tgt ps ss = Inr (xs, rng')
          \<and> map sample_index xs
              = concat (map (replicate (nat \<lceil>real (prod_list ds) / of_int (prod_list ps)\<rceil>)) ss)
          \<and> (\<forall>x\<in>set xs. shape (drawn_patch x) = map nat ps
                         \<and> shape (drawn_target x) = map nat ps)"
  using ss
proof (induction ss arbitrary: rng)
  case Nil
  then show ?case by simp
next
  case (Cons s ss)
  let ?k = "nat \<lceil>real (prod_list ds) / of_int (prod_list ps)\<rceil>"
  from Cons.prems have s: "s < n" by simp
  from item_ok [OF img, of "int s"] s obtain a where a: "item img (int s) = Inr a" "shape a = ds"
    by auto
  from item_ok [OF tgt, of "int s"] s obtain b where b: "item tgt (int s) = Inr b" "shape b = ds'"
    by auto
  from fit_prod_le [OF fit] small have "prod_list ps < 2 ^ 63" by simp
  with fit_pos [OF fit] small num_patches_pos [of ps ds]
  have np: "num_patches (shape a) ps = Inr \<lceil>real (prod_list ds) / of_int (prod_list ps)\<rceil>"
    using a(2) by simp
  have fit': "list_all2 (\<lambda>p d. 0 < p \<and> p \<le> int d) ps (shape a)"
    and same: "list_all2 (\<lambda>d d'. d \<le> d') (shape a) (shape b)"
    using fit larger a(2) b(2) by simp_all
  have one: "\<exists>x r'. sample_patch r s a b ps = Inr (x, r')" for r
    using sample_patch_spatial [OF fit' same, of r s] by blast
  from patch_loop_ok [of s a b ps ?k rng, OF one] obtain ys r1
    where ys: "patch_loop ?k rng s a b ps = Inr (ys, r1)" by blast
  have ysP: "\<forall>x\<in>set ys. shape (drawn_patch x) = map nat ps \<and> shape (drawn_target x) = map nat ps"
  proof
    fix x assume "x \<in> set ys"
    from patch_loop_drawn [OF ys this] obtain r r' where
      r: "sample_patch r s a b ps = Inr (x, r')" by blast
    from sample_patch_spatial [OF fit' same, of r s] r
    show "shape (drawn_patch x) = map nat ps \<and> shape (drawn_target x) = map nat ps" by auto
  qed
  from Cons.IH [of r1] Cons.prems obtain zs rng' where
    zs: "image_loop r1 img tgt ps ss = Inr (zs, rng')"
        "map sample_index zs = concat (map (replicate ?k) ss)"
        "\<forall>x\<in>set zs. shape (drawn_patch x) = map nat ps \<and> shape (drawn_target x) = map nat ps"
    by auto
  from a b np ys zs ysP patch_loop_sample_index [OF ys] show ?case by auto
qed

lemma drawn_patches_Inr:
  assumes "drawn_patches env img tgt ps = Inr xs"
  shows "\<exists>n ds rng'. shape img = n # ds
          \<and> image_loop (os_entropy env) img tgt ps [0..<n] = Inr (xs, rng')"
  using assms
  by (auto simp add: drawn_patches_def default_rng_def split: list.splits sum.splits)

lemma drawn_patches_loop:
  assumes "shape img = n # ds"
  shows "drawn_patches env img tgt ps =
     (case image_loop (os_entropy env) img tgt ps [0..<n] of
        Inl e \<Rightarrow> Inl e | Inr (xs, rng') \<Rightarrow> Inr xs)"
  using assms by (simp add: drawn_patches_def default_rng_def)

lemma create_patches_spatial:
  assumes img: "shape image_array = n # ds" and tgt: "shape target_array = n # ds'"
    and n: "0 < n"
    and fit: "list_all2 (\<lambda>p d. 0 < p \<and> p \<le> int d) patch_size ds"
    and larger: "list_all2 (\<lambda>d d'. d \<le> d') ds ds'"
    and small: "int (prod_list ds) < 2 ^ 63"
  shows "\<exists>xs image_patches target_patches.
      drawn_patches env image_array target_array patch_size = Inr xs
    \<and> map sample_index xs
        = concat (map (replicate (nat \<lceil>real (prod_list ds) / of_int (prod_list patch_size)\<rceil>))
            [0..<n])
    \<and> create_patches env image_array target_array patch_size
        = Inr (image_patches, target_patches)
    \<and> shape image_patches
        = (n * nat \<lceil>real (prod_list ds) / of_int (prod_list patch_size)\<rceil>) # map nat patch_size
    \<and> shape target_patches
        = (n * nat \<lceil>real (prod_list ds) / of_int (prod_list patch_size)\<rceil>) # map nat patch_size"
proof -
  let ?k = "nat \<lceil>real (prod_list ds) / of_int (prod_list patch_size)\<rceil>"
  have "\<forall>s\<in>set [0..<n]. s < n" by simp
  from image_loop_spatial [OF img tgt fit larger small this, of "os_entropy env"] obtain xs rng' where
    xs: "image_loop (os_entropy env) image_array target_array patch_size [0..<n] = Inr (xs, rng')"
        "map sample_index xs = concat (map (replicate ?k) [0..<n])"
        "\<forall>x\<in>set xs. shape (drawn_patch x) = map nat patch_size
                    \<and> shape (drawn_target x) = map nat patch_size"
    by blast
  from xs(1) have dp: "drawn_patches env image_array target_array patch_size = Inr xs"
    by (simp add: drawn_patches_loop [OF img])
  have "length (map sample_index xs) = n * ?k"
    by (simp add: xs(2) length_concat_replicate)
  then have len: "length xs = n * ?k" by simp
  from fit_prod_le [OF fit] small have "prod_list patch_size < 2 ^ 63" by simp
  with fit_pos [OF fit] small num_patches_pos [of patch_size ds] have "0 < ?k" by simp
  with n len have ne: "xs \<noteq> []" by auto
  from np_stack_ok [of "map drawn_patch xs" "map nat patch_size"] ne xs(3) obtain ip
    where ip: "np_stack (map drawn_patch xs) = Inr ip" "shape ip = length xs # map nat patch_size"
    by auto
  from np_stack_ok [of "map drawn_target xs" "map nat patch_size"] ne xs(3) obtain tp
    where tp: "np_stack (map drawn_target xs) = Inr tp" "shape tp = length xs # map nat patch_size"
    by auto
  from dp ip tp have "create_patches env image_array target_array patch_size = Inr (ip, tp)"
    by (simp add: create_patches_def)
  with dp xs(2) ip(2) tp(2) len show ?thesis by simp
qed


lemma sample_patch_too_large:
  assumes "length ps = length (shape a)" and "i < length ps" and "int (shape a ! i) < ps ! i"
  shows "sample_patch rng s a b ps = Inl ValueError"
  using draw_crop_coords_too_large [OF assms, of rng] by (simp add: sample_patch_def)


lemma image_loop_append:
  "image_loop rng img tgt ps (ss @ ts) =
     (case image_loop rng img tgt ps ss of
        Inl e \<Rightarrow> Inl e
      | Inr (xs, rng') \<Rightarrow>
          (case image_loop rng' img tgt ps ts of
             Inl e \<Rightarrow> Inl e
           | Inr (ys, rng'') \<Rightarrow> Inr (xs @ ys, rng'')))"
  by (induction ss arbitrary: rng) (auto split: sum.splits)

lemma image_loop_no_target:
  assumes "item img (int s) = Inr a" and "item tgt (int s) = Inl e"
  shows "image_loop rng img tgt ps (s # ss) = Inl e"
  using assms by simp

lemma image_loop_missing_target:
  assumes "s \<in> set ss" and "item tgt (int s) = Inl e"
  shows "isl (image_loop rng img tgt ps ss)"
  using assms(1)
proof (induction ss arbitrary: rng)
  case Nil
  then show ?case by simp
next
  case (Cons s' ss)
  show ?case
  proof (cases "s = s'")
    case True
    with assms(2) show ?thesis by (simp split: sum.splits)
  next
    case False
    with Cons.prems have "s \<in> set ss" by simp
    then have "image_loop r img tgt ps ss \<noteq> Inr y" for r y
      using Cons.IH [of r] by auto
    then show ?thesis by (auto split: sum.splits)
  qed
qed

lemma image_loop_target_cong:
  assumes "\<forall>s\<in>set ss. item tgt (int s) = item tgt' (int s)"
  shows "image_loop rng img tgt ps ss = image_loop rng img tgt' ps ss"
  using assms by (induction ss arbitrary: rng) (auto split: sum.splits)

lemma item_truncate:
  assumes "shape tgt = m # ds" and "n \<le> m" and "s < n"
  shows "item (tgt\<lparr>shape := n # ds, data := take (n * prod_list ds) (data tgt)\<rparr>) (int s)
       = item tgt (int s)"
proof -
  have "Suc s \<le> n" using assms(3) by simp
  then have "Suc s * prod_list ds \<le> n * prod_list ds" by (rule mult_le_mono1)
  then have "prod_list ds \<le> n * prod_list ds - s * prod_list ds" by simp
  then have "take (prod_list ds) (drop (s * prod_list ds) (take (n * prod_list ds) (data tgt)))
           = take (prod_list ds) (drop (s * prod_list ds) (data tgt))"
    by (simp add: drop_take min_def)
  with assms show ?thesis by (simp add: item_def)
qed



subsection \<open>Evaluation of examples\<close>

lemma patch_loop_numeral:
  "patch_loop (numeral k) rng s a b ps =
     (case sample_patch rng s a b ps of
        Inl e \<Rightarrow> Inl e
      | Inr (x, rng') \<Rightarrow>
          (case patch_loop (pred_numeral k) rng' s a b ps of
             Inl e \<Rightarrow> Inl e
           | Inr (xs, rng'') \<Rightarrow> Inr (x # xs, rng'')))"
  by (simp add: numeral_eq_Suc)

lemmas sampler_eval =
  create_patches_def drawn_patches_def default_rng_def example_env_def item_def
  num_patches_def np_prod_def int64_def sample_patch_def extract_patch_def
  getitem_ellipsis_def integers_def
  slice_len_def slice_indices_def chunks_def np_stack_def astype_def upt_rec
  patch_loop_numeral






subsection \<open>Failure on unequal stacks, count of patches, patches too large\<close>

text \<open>
  Claim C2 (shape mismatch), as amended. \<open>create_patches\<close> does not compare the two
  stacks before it samples. When the target stack holds \<open>m\<close> images, fewer than the
  image stack, the call fails, and not before sampling: the \<open>m\<close> images that have a
  target are sampled first, as the loop samples them; if that sampling raises, its
  error is the result, and otherwise the result is the \<^verbatim>\<open>IndexError\<close> of
  \<^verbatim>\<open>target_array[m]\<close>. When the target stack holds more images, the surplus targets
  are ignored: the result is the result for the target stack cut to the number of
  images. Targets of another shape than the images are not rejected: with images
  whose axes are all spatial, patch sizes that fit them and targets at least as large
  as the images, the call returns a result.
\<close>

theorem create_patches_unequal_counts:
  assumes "shape image_array = n # ds" and "shape target_array = m # ds'"
  shows "(m < n \<longrightarrow>
            create_patches env image_array target_array patch_size
            = (case image_loop (os_entropy env) image_array target_array patch_size [0..<m] of
                 Inl e \<Rightarrow> Inl e
               | Inr (xs, rng') \<Rightarrow> Inl IndexError))
       \<and> (n \<le> m \<longrightarrow>
            create_patches env image_array
              (target_array\<lparr>shape := n # ds',
                 data := take (n * prod_list ds') (data target_array)\<rparr>) patch_size
            = create_patches env image_array target_array patch_size)
       \<and> (0 < n \<and> n \<le> m \<and> list_all2 (\<lambda>p d. 0 < p \<and> p \<le> int d) patch_size ds
            \<and> list_all2 (\<lambda>d d'. d \<le> d') ds ds' \<and> int (prod_list ds) < 2 ^ 63 \<longrightarrow>
            (\<exists>image_patches target_patches.
               create_patches env image_array target_array patch_size
                 = Inr (image_patches, target_patches)))"
proof -
  let ?t = "target_array\<lparr>shape := n # ds', data := take (n * prod_list ds') (data target_array)\<rparr>"
  have fewer: "create_patches env image_array target_array patch_size
            = (case image_loop (os_entropy env) image_array target_array patch_size [0..<m] of
                 Inl e \<Rightarrow> Inl e
               | Inr (xs, rng') \<Rightarrow> Inl IndexError)" if "m < n"
  proof -
    from that have split: "[0..<n] = [0..<m] @ (m # [Suc m..<n])"
      using upt_add_eq_append [of 0 m "n - m"] by (simp add: upt_conv_Cons)
    from item_ok [OF assms(1), of "int m"] that obtain a
      where a: "item image_array (int m) = Inr a" by auto
    have "item target_array (int m) = Inl IndexError"
      using assms(2) by (simp add: item_def)
    with a have stop: "image_loop r image_array target_array patch_size (m # [Suc m..<n])
                         = Inl IndexError" for r
      by (rule image_loop_no_target)
    have "drawn_patches env image_array target_array patch_size
        = (case image_loop (os_entropy env) image_array target_array patch_size [0..<m] of
             Inl e \<Rightarrow> Inl e
           | Inr (xs, rng') \<Rightarrow> Inl IndexError)"
      unfolding drawn_patches_loop [OF assms(1)] split image_loop_append
      by (simp add: stop split: sum.splits del: image_loop.simps)
    then show ?thesis
      by (simp add: create_patches_def split: sum.splits)
  qed
  have more: "create_patches env image_array ?t patch_size
            = create_patches env image_array target_array patch_size" if nm: "n \<le> m"
  proof -
    have "\<forall>s\<in>set [0..<n]. item ?t (int s) = item target_array (int s)"
      using item_truncate [OF assms(2) nm] by simp
    then have "image_loop (os_entropy env) image_array ?t patch_size [0..<n]
             = image_loop (os_entropy env) image_array target_array patch_size [0..<n]"
      by (rule image_loop_target_cong)
    then have "drawn_patches env image_array ?t patch_size
             = drawn_patches env image_array target_array patch_size"
      by (simp add: drawn_patches_loop [OF assms(1)])
    then show ?thesis
      by (simp add: create_patches_def)
  qed
  have shapes: "\<exists>image_patches target_patches.
      create_patches env image_array target_array patch_size = Inr (image_patches, target_patches)"
    if "0 < n" and "n \<le> m"
      and "list_all2 (\<lambda>p d. 0 < p \<and> p \<le> int d) patch_size ds"
      and "list_all2 (\<lambda>d d'. d \<le> d') ds ds'" and "int (prod_list ds) < 2 ^ 63"
  proof -
    have "shape ?t = n # ds'" by simp
    from create_patches_spatial [OF assms(1) this that(1,3,4,5), of env] more [OF that(2)]
    show ?thesis by auto
  qed
  from fewer more shapes show ?thesis by blast
qed

text \<open>
  The claim as stated fails: one image and two targets give a result, made from the
  first target only; and one image of 2 by 2 pixels with a target of 3 by 3 pixels
  gives a result, the target patch cut from the corner of the larger target.
\<close>

theorem create_patches_unequal_counts_counterexample:
  "create_patches (example_env [])
     \<lparr>shape = [1, 2, 2], dtype = UInt16, data = [1, 2, 3, 4]\<rparr>
     \<lparr>shape = [2, 2, 2], dtype = UInt16, data = [5, 6, 7, 8, 9, 10, 11, 12]\<rparr> [2, 2]
   = Inr (\<lparr>shape = [1, 2, 2], dtype = Float32, data = [1, 2, 3, 4]\<rparr>,
          \<lparr>shape = [1, 2, 2], dtype = Float32, data = [5, 6, 7, 8]\<rparr>)
   \<and> create_patches (example_env [])
     \<lparr>shape = [1, 2, 2], dtype = UInt16, data = [1, 2, 3, 4]\<rparr>
     \<lparr>shape = [1, 3, 3], dtype = UInt16, data = [10, 20, 30, 40, 50, 60, 70, 80, 90]\<rparr> [2, 2]
   = Inr (\<lparr>shape = [1, 2, 2], dtype = Float32, data = [1, 2, 3, 4]\<rparr>,
          \<lparr>shape = [1, 2, 2], dtype = Float32, data = [10, 20, 40, 50]\<rparr>)"
  by (simp add: sampler_eval)

theorem create_patches_unequal_counts_witness:
  "shape \<lparr>shape = [2, 2, 2], dtype = UInt16, data = [1, 2, 3, 4, 5, 6, 7, 8]\<rparr> = 2 # [2, 2]
   \<and> shape \<lparr>shape = [1, 2, 2], dtype = UInt16, data = [5, 6, 7, 8]\<rparr> = 1 # [2, 2]
   \<and> (1::nat) < 2
   \<and> create_patches (example_env [])
        \<lparr>shape = [2, 2, 2], dtype = UInt16, data = [1, 2, 3, 4, 5, 6, 7, 8]\<rparr>
        \<lparr>shape = [1, 2, 2], dtype = UInt16, data = [5, 6, 7, 8]\<rparr> [2, 2] = Inl IndexError
   \<and> create_patches (example_env [])
        \<lparr>shape = [2, 2, 2], dtype = UInt16, data = [1, 2, 3, 4, 5, 6, 7, 8]\<rparr>
        \<lparr>shape = [1, 2, 2], dtype = UInt16, data = [5, 6, 7, 8]\<rparr> [3, 3] = Inl ValueError
   \<and> (1::nat) \<le> 2
   \<and> create_patches (example_env [])
        \<lparr>shape = [1, 2, 2], dtype = UInt16, data = [5, 6, 7, 8]\<rparr>
        \<lparr>shape = [1, 2, 2], dtype = UInt16, data = [1, 2, 3, 4]\<rparr> [2, 2]
     = create_patches (example_env [])
        \<lparr>shape = [1, 2, 2], dtype = UInt16, data = [5, 6, 7, 8]\<rparr>
        \<lparr>shape = [2, 2, 2], dtype = UInt16, data = [1, 2, 3, 4, 5, 6, 7, 8]\<rparr> [2, 2]
   \<and> list_all2 (\<lambda>p d. 0 < p \<and> p \<le> int d) [2, 2] [2, 2]
   \<and> list_all2 (\<lambda>d d'. d \<le> d') [2, 2 :: nat] [3, 3]
   \<and> int (prod_list [2, 2]) < 2 ^ 63
   \<and> (\<exists>image_patches target_patches.
        create_patches (example_env [])
          \<lparr>shape = [1, 2, 2], dtype = UInt16, data = [1, 2, 3, 4]\<rparr>
          \<lparr>shape = [1, 3, 3], dtype = UInt16, data = [10, 20, 30, 40, 50, 60, 70, 80, 90]\<rparr>
          [2, 2] = Inr (image_patches, target_patches))"
  using create_patches_unequal_counts [of
      "\<lparr>shape = [1, 2, 2], dtype = UInt16, data = [1, 2, 3, 4]\<rparr>" 1 "[2, 2]"
      "\<lparr>shape = [1, 3, 3], dtype = UInt16, data = [10, 20, 30, 40, 50, 60, 70, 80, 90]\<rparr>"
      1 "[3, 3]" "example_env []" "[2, 2]"]
    create_patches_unequal_counts [of
      "\<lparr>shape = [2, 2, 2], dtype = UInt16, data = [1, 2, 3, 4, 5, 6, 7, 8]\<rparr>" 2 "[2, 2]"
      "\<lparr>shape = [1, 2, 2], dtype = UInt16, data = [5, 6, 7, 8]\<rparr>" 1 "[2, 2]"
      "example_env []" "[2, 2]"]
    create_patches_unequal_counts [of
      "\<lparr>shape = [2, 2, 2], dtype = UInt16, data = [1, 2, 3, 4, 5, 6, 7, 8]\<rparr>" 2 "[2, 2]"
      "\<lparr>shape = [1, 2, 2], dtype = UInt16, data = [5, 6, 7, 8]\<rparr>" 1 "[2, 2]"
      "example_env []" "[3, 3]"]
    create_patches_unequal_counts [of
      "\<lparr>shape = [1, 2, 2], dtype = UInt16, data = [5, 6, 7, 8]\<rparr>" 1 "[2, 2]"
      "\<lparr>shape = [2, 2, 2], dtype = UInt16, data = [1, 2, 3, 4, 5, 6, 7, 8]\<rparr>" 2 "[2, 2]"
      "example_env []" "[2, 2]"]
  by (simp add: sampler_eval)







subsection \<open>Coordinates and pairing of the drawn patches\<close>

text \<open>
  The coordinates drawn lie within the bounds that \<^verbatim>\<open>sample.shape[i]\<close> gives, and the
  axes of the image before its last \<open>length patch_size\<close> ones are kept whole in the
  patch.
\<close>

lemma drawn_crop_coords_bounds:
  assumes "drawn_patches env image_array target_array patch_size = Inr xs"
    and "x \<in> set xs" and "shape image_array = n # ds"
  shows "length (crop_coords x) = length patch_size \<and> length patch_size \<le> length ds
       \<and> (\<forall>i<length patch_size.
             0 \<le> crop_coords x ! i \<and> crop_coords x ! i \<le> int (ds ! i) - patch_size ! i)
       \<and> take (length ds - length patch_size) (shape (drawn_patch x))
           = take (length ds - length patch_size) ds"
proof -
  from drawn_patches_Inr [OF assms(1)] assms(3) obtain rng' where
    "image_loop (os_entropy env) image_array target_array patch_size [0..<n] = Inr (xs, rng')"
    by auto
  from image_loop_drawn [OF this assms(2)] obtain sample tsample r r' where
    *: "item image_array (int (sample_index x)) = Inr sample"
       "sample_patch r (sample_index x) sample tsample patch_size = Inr (x, r')"
    by blast
  from *(1) assms(3) have "shape sample = ds"
    by (auto simp add: item_def Let_def split: if_splits)
  with sample_patch_Inr [OF *(2)]
  have d: "draw_crop_coords r ds patch_size = Inr (crop_coords x, r')"
    and p: "extract_patch sample (crop_coords x) patch_size = Inr (drawn_patch x)"
    by simp_all
  from draw_crop_coords_Inr [OF d] extract_patch_lead [OF p] \<open>shape sample = ds\<close>
  show ?thesis by simp
qed

text \<open>
  Claim C4 (coordinate bounds) does not hold of the code for images with an axis
  before the spatial ones. The bound of coordinate \<open>i\<close> is read from
  \<^verbatim>\<open>sample.shape[i]\<close>, while the slice of coordinate \<open>i\<close> goes to one of the last
  axes. For one image of shape \<open>(3, 2, 2)\<close>, spatial extent \<open>(2, 2)\<close>, and patches of
  \<open>(2, 2)\<close> the first coordinate is drawn from \<open>0..3 - 2\<close>: with the draws below every
  patch starts at row 1, beyond \<open>2 - 2 = 0\<close>, is cut to one row, and \<open>create_patches\<close>
  returns these patches. One image of shape \<open>(1, 3, 3)\<close>, spatial extent \<open>(3, 3)\<close>, is
  not accepted at all with patches of \<open>(2, 2)\<close>.
\<close>

theorem create_patches_leading_axis_coords:
  "map_sum id (map crop_coords)
     (drawn_patches (example_env [1, 0, 1, 0, 1, 0])
        \<lparr>shape = [1, 3, 2, 2], dtype = UInt16,
          data = [1, 2, 3, 4, 5, 6, 7, 8, 9, 10, 11, 12]\<rparr>
        \<lparr>shape = [1, 3, 2, 2], dtype = UInt16,
          data = [1, 2, 3, 4, 5, 6, 7, 8, 9, 10, 11, 12]\<rparr> [2, 2])
   = Inr [[1, 0], [1, 0], [1, 0]]
   \<and> create_patches (example_env [1, 0, 1, 0, 1, 0])
        \<lparr>shape = [1, 3, 2, 2], dtype = UInt16,
          data = [1, 2, 3, 4, 5, 6, 7, 8, 9, 10, 11, 12]\<rparr>
        \<lparr>shape = [1, 3, 2, 2], dtype = UInt16,
          data = [1, 2, 3, 4, 5, 6, 7, 8, 9, 10, 11, 12]\<rparr> [2, 2]
   = Inr (\<lparr>shape = [3, 3, 1, 2], dtype = Float32,
            data = [3, 4, 7, 8, 11, 12, 3, 4, 7, 8, 11, 12, 3, 4, 7, 8, 11, 12]\<rparr>,
          \<lparr>shape = [3, 3, 1, 2], dtype = Float32,
            data = [3, 4, 7, 8, 11, 12, 3, 4, 7, 8, 11, 12, 3, 4, 7, 8, 11, 12]\<rparr>)
   \<and> create_patches (example_env [])
        \<lparr>shape = [1, 1, 3, 3], dtype = UInt16, data = [1, 2, 3, 4, 5, 6, 7, 8, 9]\<rparr>
        \<lparr>shape = [1, 1, 3, 3], dtype = UInt16, data = [1, 2, 3, 4, 5, 6, 7, 8, 9]\<rparr> [2, 2]
   = Inl ValueError"
proof -
  let ?a = "\<lparr>shape = [3, 2, 2], dtype = UInt16,
             data = [1, 2, 3, 4, 5, 6, 7, 8, 9, 10, 11, 12 :: real]\<rparr>"
  let ?x = "\<lparr>sample_index = 0, crop_coords = [1, 0],
             drawn_patch = \<lparr>shape = [3, 1, 2], dtype = Float32,
               data = [3, 4, 7, 8, 11, 12]\<rparr>,
             drawn_target = \<lparr>shape = [3, 1, 2], dtype = Float32,
               data = [3, 4, 7, 8, 11, 12]\<rparr>\<rparr>"
  have s1: "sample_patch (Suc 0 ## 0 ## Suc 0 ## 0 ## Suc 0 ## 0 ## sconst 0) 0 ?a ?a [2, 2]
    = Inr (?x, Suc 0 ## 0 ## Suc 0 ## 0 ## sconst 0)"
    by (simp add: sampler_eval)
  have s2: "sample_patch (Suc 0 ## 0 ## Suc 0 ## 0 ## sconst 0) 0 ?a ?a [2, 2]
    = Inr (?x, Suc 0 ## 0 ## sconst 0)"
    by (simp add: sampler_eval)
  have s3: "sample_patch (Suc 0 ## 0 ## sconst 0) 0 ?a ?a [2, 2] = Inr (?x, sconst 0)"
    by (simp add: sampler_eval)
  have np: "num_patches [3, 2, 2] [2, 2] = Inr 3"
    by (simp add: num_patches_def np_prod_def int64_def)
  have dp: "drawn_patches (example_env [1, 0, 1, 0, 1, 0])
        \<lparr>shape = [1, 3, 2, 2], dtype = UInt16,
          data = [1, 2, 3, 4, 5, 6, 7, 8, 9, 10, 11, 12]\<rparr>
        \<lparr>shape = [1, 3, 2, 2], dtype = UInt16,
          data = [1, 2, 3, 4, 5, 6, 7, 8, 9, 10, 11, 12]\<rparr> [2, 2] = Inr [?x, ?x, ?x]"
    by (simp add: drawn_patches_def default_rng_def example_env_def item_def np
        upt_rec patch_loop_numeral s1 s2 s3)
  have single: "create_patches (example_env [])
        \<lparr>shape = [1, 1, 3, 3], dtype = UInt16, data = [1, 2, 3, 4, 5, 6, 7, 8, 9]\<rparr>
        \<lparr>shape = [1, 1, 3, 3], dtype = UInt16, data = [1, 2, 3, 4, 5, 6, 7, 8, 9]\<rparr> [2, 2]
      = Inl ValueError"
    by (simp add: sampler_eval)
  show ?thesis
    unfolding create_patches_def dp single [unfolded create_patches_def]
    by (simp add: np_stack_def)
qed




end
